theory Spec2Isabelle
  imports Main "HOL-Library.Char_ord" "HOL-Library.List_Lexorder"
begin

section \<open>Data model of convert.py\<close>

text \<open>
  Exceptions of the Python program, as values. \<open>SystemExit\<close> carries the message given to
  \<open>sys.exit\<close>; \<open>ValueError\<close> is what \<open>min\<close>/\<open>max\<close> raise on an empty sequence and what the
  two-name unpacking of \<open>file_name.split('.')\<close> raises; \<open>FileExistsError\<close> is raised by
  \<open>os.makedirs\<close> on an existing path; \<open>IndexError\<close> by \<open>json_data["images"][0]\<close> on an empty
  list; \<open>ExternalError\<close> stands for any exception raised inside an external collaborator
  (HTTP request, JSON decoding, image codec).
\<close>

datatype error =
    SystemExit string
  | ValueError
  | IndexError
  | FileExistsError string
  | ExternalError string

text \<open>A vertex \<open>{"x": .., "y": ..}\<close> of a bounding polygon; coordinates are exact integers.\<close>

record point =
  px :: int
  py :: int

text \<open>
  The four-element list \<open>[left, upper, right, lower]\<close> built by \<open>get_bbox\<close>; the fields are
  the positions 0, 1, 2, 3 that \<open>valid_crop_size\<close> and \<open>run\<close> index.
\<close>

record bbox =
  left :: int
  upper :: int
  right :: int
  lower :: int

section \<open>get_bbox\<close>

text \<open>Python's \<open>min\<close> and \<open>max\<close> over an iterable: \<open>ValueError\<close> when it is empty.\<close>

fun py_min :: "int list \<Rightarrow> error + int" where
  "py_min [] = Inl ValueError"
| "py_min (v # vs) = Inr (fold min vs v)"

fun py_max :: "int list \<Rightarrow> error + int" where
  "py_max [] = Inl ValueError"
| "py_max (v # vs) = Inr (fold max vs v)"

definition get_bbox :: "point list \<Rightarrow> error + bbox" where
  "get_bbox points =
     (case py_min (map px points) of Inl e \<Rightarrow> Inl e | Inr l \<Rightarrow>
     (case py_min (map py points) of Inl e \<Rightarrow> Inl e | Inr u \<Rightarrow>
     (case py_max (map px points) of Inl e \<Rightarrow> Inl e | Inr r \<Rightarrow>
     (case py_max (map py points) of Inl e \<Rightarrow> Inl e | Inr lo \<Rightarrow>
        Inr \<lparr>left = l, upper = u, right = r, lower = lo\<rparr>))))"

section \<open>valid_crop_size\<close>

definition valid_crop_size :: "bbox \<Rightarrow> int \<Rightarrow> bool" where
  "valid_crop_size b sz =
     (if right b - left b < sz \<or> lower b - upper b < sz then False else True)"


section \<open>Splitting a file name\<close>

text \<open>\<open>s.split(c)\<close> for a one-character separator: \<open>n\<close> separators give \<open>n + 1\<close> parts.\<close>

fun py_split :: "char \<Rightarrow> string \<Rightarrow> string list" where
  "py_split c [] = [[]]"
| "py_split c (a # as) =
     (if a = c then [] # py_split c as
      else (case py_split c as of [] \<Rightarrow> [[a]] | p # ps \<Rightarrow> (a # p) # ps))"

text \<open>\<open>name, ext = file_name.split('.')\<close>: the unpacking needs exactly two parts.\<close>

definition split_name_ext :: "string \<Rightarrow> error + (string \<times> string)" where
  "split_name_ext file_name =
     (case py_split (CHR ''.'') file_name of
        [name, ext] \<Rightarrow> Inr (name, ext)
      | _ \<Rightarrow> Inl ValueError)"

text \<open>The number of dots of a file name.\<close>

definition dots :: "string \<Rightarrow> nat" where
  "dots s = length (filter (\<lambda>c. c = CHR ''.'') s)"

section \<open>Formatting a crop file name\<close>

text \<open>\<open>str(n)\<close> for a non-negative integer: its decimal digits.\<close>

definition digit_char :: "nat \<Rightarrow> char" where
  "digit_char d = char_of (48 + d)"

fun str_nat :: "nat \<Rightarrow> string" where
  "str_nat n = (if n < 10 then [digit_char n] else str_nat (n div 10) @ [digit_char (n mod 10)])"

declare str_nat.simps [simp del]

text \<open>The format specification \<open>{jj:03d}\<close>: decimal, padded with zeros on the left to width 3.\<close>

definition format_03d :: "nat \<Rightarrow> string" where
  "format_03d jj = replicate (3 - length (str_nat jj)) (CHR ''0'') @ str_nat jj"

text \<open>\<open>f"{name}_{jj:03d}.{ext}"\<close>\<close>

definition cropped_file_name :: "string \<Rightarrow> nat \<Rightarrow> string \<Rightarrow> string" where
  "cropped_file_name name jj ext = name @ ''_'' @ format_03d jj @ ''.'' @ ext"

section \<open>The environment and the state of a batch run\<close>

text \<open>
  \<open>os.path.join\<close> of posixpath: a component that starts with a slash discards what precedes
  it; otherwise a slash is inserted unless the path so far is empty or ends with one.
\<close>

definition join2 :: "string \<Rightarrow> string \<Rightarrow> string" where
  "join2 a b =
     (if b \<noteq> [] \<and> hd b = CHR ''/'' then b
      else if a = [] \<or> last a = CHR ''/'' then a @ b
      else a @ ''/'' @ b)"

fun os_path_join :: "string list \<Rightarrow> string" where
  "os_path_join [] = []"
| "os_path_join (a # ps) = foldl join2 a ps"

text \<open>\<open>os.path.basename\<close>: what follows the last slash.\<close>

definition basename :: "string \<Rightarrow> string" where
  "basename p = rev (takeWhile (\<lambda>c. c \<noteq> CHR ''/'') (rev p))"

text \<open>
  The command-line arguments \<open>run\<close> reads. The API URL and the secret key only travel to the
  HTTP request, which is part of the environment below.
\<close>

record args =
  input_path :: string
  output_path :: string
  min_image_size :: int

text \<open>
  One recognised field (the keys \<open>inferText\<close> and \<open>boundingPoly.vertices\<close>), one image result
  (the key \<open>fields\<close>) and the decoded response of the service (the key \<open>images\<close>).
\<close>

record field =
  inferText :: string
  vertices :: "point list"

record image_result =
  image_fields :: "field list"

record response =
  images :: "image_result list"

text \<open>
  What the program asks of the outside world: the file system as it is when \<open>run\<close> starts
  (\<open>os.path.exists\<close>, \<open>os.path.isdir\<close>, \<open>os.path.abspath\<close>, \<open>os.listdir\<close>), the recognition
  service (the POST of an image file with its format, and the decoding of the answer) and
  the image codec (\<open>Image.open\<close> and \<open>img.size\<close> as width and height). A response that is not
  of the expected shape counts as a failure of the service.
\<close>

record env =
  path_exists :: "string \<Rightarrow> bool"
  path_isdir :: "string \<Rightarrow> bool"
  abspath :: "string \<Rightarrow> string"
  listdir :: "string \<Rightarrow> error + string list"
  ocr :: "string \<Rightarrow> string \<Rightarrow> error + response"
  image_size :: "string \<Rightarrow> (nat \<times> nat) option"

text \<open>A shape and a LabelMe document, with the keys in the order \<open>run\<close> inserts them.\<close>

record shape =
  label :: string
  points :: "int list list"
  group_id :: "string option"
  shape_type :: string
  flags :: "(string \<times> bool) list"

record document =
  version :: string
  doc_shape_type :: string
  doc_flags :: "(string \<times> bool) list"
  shapes :: "shape list"
  imagePath :: string
  imageData :: "string option"
  imageHeight :: nat
  imageWidth :: nat

text \<open>
  Everything a run creates or writes, in the order of the calls: the directories made, the
  raw responses stored under \<open>recognized\<close>, the label file (its path once created, whether
  the handle is open, and the text of each \<open>write\<close>), the crops saved (path and box), the
  source images copied (source and destination) and the documents dumped (path and content).
\<close>

record state =
  made_dirs :: "string list"
  clova_files :: "string \<rightharpoonup> response"
  labels_file :: "string option"
  labels_open :: bool
  labels_written :: "string list"
  crops :: "(string \<times> bbox) list"
  copied :: "(string \<times> string) list"
  documents :: "(string \<times> document) list"

definition init_state :: state where
  "init_state =
     \<lparr>made_dirs = [], clova_files = Map.empty, labels_file = None, labels_open = False,
      labels_written = [], crops = [], copied = [], documents = []\<rparr>"

section \<open>create_working_directory and get_files\<close>

text \<open>
  \<open>os.makedirs(path)\<close> without \<open>exist_ok\<close>: \<open>FileExistsError\<close> when the path exists, whether it
  was there at the start or made by this run. Only the named directory is recorded, not the
  missing ancestors that the call creates on the way.
\<close>

definition makedirs :: "env \<Rightarrow> string \<Rightarrow> state \<Rightarrow> (error \<times> state) + state" where
  "makedirs e path s =
     (if path_exists e path \<or> path \<in> set (made_dirs s) then Inl (FileExistsError path, s)
      else Inr (s\<lparr>made_dirs := made_dirs s @ [path]\<rparr>))"

fun make_sub_dirs ::
  "env \<Rightarrow> string \<Rightarrow> string list \<Rightarrow> string list \<Rightarrow> state \<Rightarrow> (error \<times> state) + (string list \<times> state)"
where
  "make_sub_dirs e root [] dirs s = Inr (dirs, s)"
| "make_sub_dirs e root (sub # subs) dirs s =
     (let path = os_path_join [root, sub] in
      case makedirs e path s of
        Inl err \<Rightarrow> Inl err
      | Inr s' \<Rightarrow> make_sub_dirs e root subs (dirs @ [path]) s')"

definition create_working_directory ::
  "env \<Rightarrow> string \<Rightarrow> string list \<Rightarrow> state \<Rightarrow> (error \<times> state) + (string list \<times> state)"
where
  "create_working_directory e root sub_dirs s =
     (case makedirs e root s of
        Inl err \<Rightarrow> Inl err
      | Inr s' \<Rightarrow> make_sub_dirs e root sub_dirs [root] s')"

definition startswith_dot :: "string \<Rightarrow> bool" where
  "startswith_dot file = (case file of [] \<Rightarrow> False | c # _ \<Rightarrow> c = CHR ''.'')"

definition get_files :: "env \<Rightarrow> string \<Rightarrow> string \<Rightarrow> error + (string list \<times> nat)" where
  "get_files e path except_file =
     (case listdir e path of
        Inl err \<Rightarrow> Inl err
      | Inr entries \<Rightarrow>
          (let file_list =
                 filter (\<lambda>file. \<not> (startswith_dot file \<or> file = basename except_file)) entries
           in Inr (sort file_list, length file_list)))"

section \<open>request_recognition_from_clova_ocr\<close>

definition request_recognition_from_clova_ocr ::
  "env \<Rightarrow> args \<Rightarrow> string \<Rightarrow> string \<Rightarrow> state \<Rightarrow> (error \<times> state) + (string \<times> state)"
where
  "request_recognition_from_clova_ocr e a subdir image_file s =
     (case split_name_ext image_file of
        Inl err \<Rightarrow> Inl (err, s)
      | Inr (name, ext) \<Rightarrow>
          (case ocr e (os_path_join [input_path a, image_file]) ext of
             Inl err \<Rightarrow> Inl (err, s)
           | Inr res \<Rightarrow>
               (let json_file = os_path_join [output_path a, subdir, name @ ''_clova.json'']
                in Inr (json_file, s\<lparr>clova_files := (clova_files s)(json_file \<mapsto> res)\<rparr>))))"

section \<open>run\<close>

text \<open>The text of one \<open>labels.write\<close>: \<open>f"{cropped_file}\t{label}\n"\<close>.\<close>

definition label_line :: "string \<Rightarrow> string \<Rightarrow> string" where
  "label_line cropped_file lbl = cropped_file @ [CHR 0x09] @ lbl @ [CHR 0x0A]"

text \<open>
  The loop over the fields of one image, \<open>jj\<close> being the index that \<open>enumerate\<close> gives the
  field at the head of the list. A rejected field is skipped by \<open>continue\<close>; an accepted one
  saves its crop, writes its label line and appends its shape.
\<close>

fun fields_loop ::
  "args \<Rightarrow> string list \<Rightarrow> string \<Rightarrow> string \<Rightarrow> nat \<Rightarrow> field list \<Rightarrow> shape list \<Rightarrow> state \<Rightarrow>
   (error \<times> state) + (shape list \<times> state)"
where
  "fields_loop a dirs name ext jj [] shps s = Inr (shps, s)"
| "fields_loop a dirs name ext jj (f # fs) shps s =
     (let lbl = inferText f in
      case get_bbox (vertices f) of
        Inl err \<Rightarrow> Inl (err, s)
      | Inr b \<Rightarrow>
          if \<not> valid_crop_size b (min_image_size a) then
            fields_loop a dirs name ext (Suc jj) fs shps s
          else
            (let cropped_file = cropped_file_name name jj ext;
                 s1 = s\<lparr>crops := crops s @ [(os_path_join [output_path a, dirs ! 2, cropped_file], b)]\<rparr>;
                 s2 = s1\<lparr>labels_written := labels_written s1 @ [label_line cropped_file lbl]\<rparr>;
                 shapes_dict = \<lparr>label = lbl, points = [[left b, upper b], [right b, lower b]],
                                group_id = None, shape_type = ''rectangle'', flags = []\<rparr>
             in fields_loop a dirs name ext (Suc jj) fs (shps @ [shapes_dict]) s2))"

text \<open>The body of the loop over the files, for one file.\<close>

definition process_file ::
  "env \<Rightarrow> args \<Rightarrow> string list \<Rightarrow> string \<Rightarrow> state \<Rightarrow> (error \<times> state) + state"
where
  "process_file e a dirs file_name s =
     (case split_name_ext file_name of
        Inl err \<Rightarrow> Inl (err, s)
      | Inr (name, ext) \<Rightarrow>
     (case request_recognition_from_clova_ocr e a (dirs ! 1) file_name s of
        Inl err \<Rightarrow> Inl err
      | Inr (clova_json_file, s1) \<Rightarrow>
     (case clova_files s1 clova_json_file of
        None \<Rightarrow> Inl (ExternalError ''FileNotFoundError'', s1)
      | Some json_data \<Rightarrow>
     (case image_size e (os_path_join [input_path a, file_name]) of
        None \<Rightarrow> Inl (ExternalError ''UnidentifiedImageError'', s1)
      | Some (width, height) \<Rightarrow>
     (case images json_data of
        [] \<Rightarrow> Inl (IndexError, s1)
      | im # _ \<Rightarrow>
     (case fields_loop a dirs name ext 0 (image_fields im) [] s1 of
        Inl err \<Rightarrow> Inl err
      | Inr (shps, s2) \<Rightarrow>
          (let json_dict =
                 \<lparr>version = ''4.5.9'', doc_shape_type = ''rectangle'', doc_flags = [],
                  shapes = shps, imagePath = file_name, imageData = None,
                  imageHeight = height, imageWidth = width\<rparr>;
               s3 = s2\<lparr>copied := copied s2 @
                       [(os_path_join [input_path a, file_name], os_path_join [dirs ! 3, file_name])]\<rparr>;
               s4 = s3\<lparr>documents := documents s3 @
                       [(os_path_join [dirs ! 3, name @ ''.json''], json_dict)]\<rparr>
           in Inr s4)))))))"

fun files_loop ::
  "env \<Rightarrow> args \<Rightarrow> string list \<Rightarrow> string list \<Rightarrow> state \<Rightarrow> (error \<times> state) + state"
where
  "files_loop e a dirs [] s = Inr s"
| "files_loop e a dirs (file_name # rest) s =
     (case process_file e a dirs file_name s of
        Inl err \<Rightarrow> Inl err
      | Inr s' \<Rightarrow> files_loop e a dirs rest s')"

text \<open>The messages of the two \<open>sys.exit\<close> calls.\<close>

definition input_missing_message :: "env \<Rightarrow> args \<Rightarrow> string" where
  "input_missing_message e a =
     ''Can'' @ [CHR 0x27] @ ''t find '' @ [CHR 0x27] @ abspath e (input_path a) @ [CHR 0x27]
       @ '' directory.''"

definition output_exists_message :: "env \<Rightarrow> args \<Rightarrow> string" where
  "output_exists_message e a =
     [CHR 0x27] @ abspath e (output_path a) @ [CHR 0x27] @ '' directory is already exists.''"

text \<open>
  \<open>run\<close>, from a given state of the outputs: the exception that ends it, if any, and the
  state it leaves. The exceptions are those the program raises itself (\<open>sys.exit\<close>, the
  unpacking of the split, \<open>min\<close> and \<open>max\<close> over no vertex, the index into an empty list of
  images), \<open>FileExistsError\<close> from \<open>os.makedirs\<close>, and the failures of the environment
  (listing, recognition, image codec); a write into the output tree, once its directories
  are made, succeeds. Progress and timing output is not modelled.
\<close>

definition run :: "env \<Rightarrow> args \<Rightarrow> state \<Rightarrow> error option \<times> state" where
  "run e a s =
     (if \<not> path_exists e (input_path a) then (Some (SystemExit (input_missing_message e a)), s)
      else if path_isdir e (output_path a) then
        (Some (SystemExit (output_exists_message e a)), s)
      else
        (case create_working_directory e (output_path a)
                [''recognized'', ''cropped'', ''converted''] s of
           Inl (err, s') \<Rightarrow> (Some err, s')
         | Inr (dirs, s1) \<Rightarrow>
        (case get_files e (input_path a) [] of
           Inl err \<Rightarrow> (Some err, s1)
         | Inr (files, count) \<Rightarrow>
            (let s2 = s1\<lparr>labels_file :=
                           Some (os_path_join [output_path a, dirs ! 2, ''labels.txt'']),
                         labels_open := True\<rparr>
             in case files_loop e a dirs files s2 of
                  Inl (err, s') \<Rightarrow> (Some err, s')
                | Inr s3 \<Rightarrow> (None, s3\<lparr>labels_open := False\<rparr>)))))"

section \<open>Measures on the outputs of a run\<close>

text \<open>The number of shapes over all the documents dumped so far.\<close>

definition total_shapes :: "state \<Rightarrow> nat" where
  "total_shapes s = sum_list (map (\<lambda>pd. length (shapes (snd pd))) (documents s))"

text \<open>The number of lines of the label file: the line feeds in the text written to it.\<close>

definition num_lines :: "state \<Rightarrow> nat" where
  "num_lines s = length (filter (\<lambda>c. c = CHR 0x0A) (concat (labels_written s)))"


text \<open>
  No line feed in the names of the files to process nor in the texts recognised in them.
\<close>

definition file_newline_free :: "env \<Rightarrow> args \<Rightarrow> string \<Rightarrow> bool" where
  "file_newline_free e a f =
     (CHR 0x0A \<notin> set f \<and>
      (case split_name_ext f of
         Inl _ \<Rightarrow> True
       | Inr (name, ext) \<Rightarrow>
           (case ocr e (os_path_join [input_path a, f]) ext of
              Inl _ \<Rightarrow> True
            | Inr res \<Rightarrow>
                list_all (\<lambda>im. list_all (\<lambda>fl. CHR 0x0A \<notin> set (inferText fl))
                                  (image_fields im))
                  (images res))))"

definition newline_free :: "env \<Rightarrow> args \<Rightarrow> bool" where
  "newline_free e a =
     (case get_files e (input_path a) [] of
        Inl _ \<Rightarrow> True
      | Inr (files, _) \<Rightarrow> list_all (file_newline_free e a) files)"








section \<open>Example runs\<close>

text \<open>
  An input directory \<open>/in\<close> with the given entries, no output directory yet, a service that
  answers every image with the given fields, and images of 640 by 480 pixels.
\<close>

definition example_env :: "string list \<Rightarrow> field list \<Rightarrow> env" where
  "example_env entries fs =
     \<lparr>path_exists = (\<lambda>p. p = ''/in''), path_isdir = (\<lambda>p. p = ''/in''),
      abspath = (\<lambda>p. p), listdir = (\<lambda>p. Inr entries),
      ocr = (\<lambda>p fmt. Inr \<lparr>images = [\<lparr>image_fields = fs\<rparr>]\<rparr>),
      image_size = (\<lambda>p. Some (640, 480))\<rparr>"

definition example_args :: args where
  "example_args = \<lparr>input_path = ''/in'', output_path = ''/out'', min_image_size = 16\<rparr>"

text \<open>The two fields of the end-to-end scenario: 30 by 40 pixels, and 5 by 5 pixels.\<close>

definition field_A :: field where
  "field_A = \<lparr>inferText = ''abcd'',
              vertices = [\<lparr>px = 0, py = 0\<rparr>, \<lparr>px = 30, py = 0\<rparr>, \<lparr>px = 30, py = 40\<rparr>, \<lparr>px = 0, py = 40\<rparr>]\<rparr>"

definition field_B :: field where
  "field_B = \<lparr>inferText = ''xx'',
              vertices = [\<lparr>px = 0, py = 0\<rparr>, \<lparr>px = 5, py = 0\<rparr>, \<lparr>px = 5, py = 5\<rparr>, \<lparr>px = 0, py = 5\<rparr>]\<rparr>"

text \<open>The directories that \<open>create_working_directory\<close> returns for the output path \<open>/out\<close>.\<close>

definition example_dirs :: "string list" where
  "example_dirs = [''/out'', ''/out/recognized'', ''/out/cropped'', ''/out/converted'']"

text \<open>A field whose recognised text holds a line feed, and a field with no vertex.\<close>

definition field_two_lines :: field where
  "field_two_lines = field_A\<lparr>inferText := ''ab'' @ [CHR 0x0A] @ ''cd''\<rparr>"

definition field_no_vertices :: field where
  "field_no_vertices = \<lparr>inferText = ''yy'', vertices = []\<rparr>"

text \<open>
  Environments in which the output path \<open>/out\<close> exists already: as a directory, as a file
  that is no directory, and as a directory while the input path \<open>/in\<close> is missing.
\<close>

definition env_output_dir :: env where
  "env_output_dir =
     (example_env [''0000000001.png''] [field_A, field_B])
       \<lparr>path_exists := (\<lambda>p. p = ''/in'' \<or> p = ''/out''),
        path_isdir := (\<lambda>p. p = ''/in'' \<or> p = ''/out'')\<rparr>"

definition env_output_file :: env where
  "env_output_file =
     (example_env [''0000000001.png''] [field_A, field_B])
       \<lparr>path_exists := (\<lambda>p. p = ''/in'' \<or> p = ''/out'')\<rparr>"

definition env_no_input :: env where
  "env_no_input =
     (example_env [''0000000001.png''] [field_A, field_B])
       \<lparr>path_exists := (\<lambda>p. p = ''/out''), path_isdir := (\<lambda>p. p = ''/out'')\<rparr>"

section \<open>The bounding box\<close>

lemma py_min_Min: "vs \<noteq> [] \<Longrightarrow> py_min vs = Inr (Min (set vs))"
  by (cases vs) (simp_all add: Min.set_eq_fold del: set_simps)

lemma py_max_Max: "vs \<noteq> [] \<Longrightarrow> py_max vs = Inr (Max (set vs))"
  by (cases vs) (simp_all add: Max.set_eq_fold del: set_simps)

lemma get_bbox_nonempty:
  "ps \<noteq> [] \<Longrightarrow>
   get_bbox ps =
     Inr \<lparr>left = Min (px ` set ps), upper = Min (py ` set ps),
          right = Max (px ` set ps), lower = Max (py ` set ps)\<rparr>"
  by (simp add: get_bbox_def py_min_Min py_max_Max)



text \<open>
  Claim C1. For every non-empty polygon, \<open>get_bbox\<close> returns the box whose left and upper
  coordinates are the minimum x and the minimum y over all points and whose right and lower
  coordinates are the maximum x and the maximum y. The box depends on the set of points
  only, so neither their order nor duplicates matter, and \<open>get_bbox\<close> is a function of the
  polygon alone: it reads and returns no state.
\<close>

theorem get_bbox_min_max:
  "ps \<noteq> [] \<Longrightarrow>
   get_bbox ps =
     Inr \<lparr>left = Min (px ` set ps), upper = Min (py ` set ps),
          right = Max (px ` set ps), lower = Max (py ` set ps)\<rparr>"
  by (rule get_bbox_nonempty)

theorem get_bbox_min_max_witness:
  "get_bbox [\<lparr>px = 30, py = 40\<rparr>, \<lparr>px = 0, py = 5\<rparr>, \<lparr>px = 30, py = 40\<rparr>, \<lparr>px = 7, py = 2\<rparr>]
     = Inr \<lparr>left = 0, upper = 2, right = 30, lower = 40\<rparr>"
  using get_bbox_min_max
    [of "[\<lparr>px = 30, py = 40\<rparr>, \<lparr>px = 0, py = 5\<rparr>, \<lparr>px = 30, py = 40\<rparr>, \<lparr>px = 7, py = 2\<rparr>]"]
  by simp

text \<open>
  Claim C6. \<open>get_bbox\<close> applied to an empty polygon fails: the first \<open>min\<close> over no points
  raises \<open>ValueError\<close>, the exception that plays the part of the specification's
  \<open>InvalidPolygonError\<close>.
\<close>

theorem get_bbox_empty: "get_bbox [] = Inl ValueError"
  by (simp add: get_bbox_def)

section \<open>The size filter\<close>

text \<open>
  Claim C2. \<open>valid_crop_size\<close> returns false exactly when the width \<open>right - left\<close> or the
  height \<open>lower - upper\<close> of the box is less than the minimum size; in particular a box
  with \<open>left = right\<close> or \<open>upper = lower\<close> is rejected whenever the minimum size is
  positive.
\<close>

theorem valid_crop_size_rejects:
  "(valid_crop_size b sz \<longleftrightarrow> \<not> (right b - left b < sz \<or> lower b - upper b < sz))
   \<and> ((left b = right b \<or> upper b = lower b) \<and> 0 < sz \<longrightarrow> \<not> valid_crop_size b sz)"
  by (auto simp: valid_crop_size_def)

theorem valid_crop_size_rejects_witness:
  "valid_crop_size \<lparr>left = 10, upper = 10, right = 50, lower = 60\<rparr> 16
   \<and> \<not> valid_crop_size \<lparr>left = 10, upper = 10, right = 20, lower = 15\<rparr> 16
   \<and> \<not> valid_crop_size \<lparr>left = 10, upper = 10, right = 10, lower = 60\<rparr> 1"
  using valid_crop_size_rejects [of "\<lparr>left = 10, upper = 10, right = 50, lower = 60\<rparr>" 16]
    valid_crop_size_rejects [of "\<lparr>left = 10, upper = 10, right = 20, lower = 15\<rparr>" 16]
    valid_crop_size_rejects [of "\<lparr>left = 10, upper = 10, right = 10, lower = 60\<rparr>" 1]
  by simp

text \<open>
  Claim C8. \<open>valid_crop_size\<close> is monotonic in the dimensions of the box: for a fixed
  minimum size, if box \<open>a\<close> is at least as wide and at least as high as box \<open>b\<close> and \<open>b\<close> is
  accepted, then \<open>a\<close> is accepted.
\<close>

theorem valid_crop_size_mono:
  "right b - left b \<le> right a - left a \<Longrightarrow> lower b - upper b \<le> lower a - upper a \<Longrightarrow>
   valid_crop_size b sz \<Longrightarrow> valid_crop_size a sz"
  by (auto simp: valid_crop_size_def split: if_splits)

theorem valid_crop_size_mono_witness:
  "valid_crop_size \<lparr>left = 0, upper = 0, right = 16, lower = 20\<rparr> 16
   \<and> valid_crop_size \<lparr>left = 5, upper = 5, right = 30, lower = 25\<rparr> 16"
proof -
  have b: "valid_crop_size \<lparr>left = 0, upper = 0, right = 16, lower = 20\<rparr> 16"
    by (simp add: valid_crop_size_def)
  from valid_crop_size_mono [of "\<lparr>left = 0, upper = 0, right = 16, lower = 20\<rparr>"
      "\<lparr>left = 5, upper = 5, right = 30, lower = 25\<rparr>" 16, OF _ _ b] b
  show ?thesis by simp
qed




section \<open>Base name and extension\<close>

lemma py_split_nonempty: "py_split c s \<noteq> []"
  by (induction s) (auto split: list.splits)

lemma length_py_split: "length (py_split c s) = Suc (length (filter (\<lambda>x. x = c) s))"
  by (induction s) (auto split: list.splits simp: py_split_nonempty)

lemma py_split_no_sep: "c \<notin> set s \<Longrightarrow> py_split c s = [s]"
  by (induction s) auto

lemma py_split_first_sep:
  "c \<in> set s \<Longrightarrow>
   py_split c s = takeWhile (\<lambda>x. x \<noteq> c) s # py_split c (tl (dropWhile (\<lambda>x. x \<noteq> c) s))"
  by (induction s) (auto split: list.splits)

lemma dots_tl_dropWhile:
  "CHR ''.'' \<in> set s \<Longrightarrow> dots s = Suc (dots (tl (dropWhile (\<lambda>x. x \<noteq> CHR ''.'') s)))"
  by (induction s) (auto simp: dots_def)

lemma dots_zero: "dots s = 0 \<longleftrightarrow> CHR ''.'' \<notin> set s"
  by (induction s) (auto simp: dots_def)

lemma split_name_ext_one_dot:
  assumes "dots f = 1"
  shows "split_name_ext f =
           Inr (takeWhile (\<lambda>c. c \<noteq> CHR ''.'') f, tl (dropWhile (\<lambda>c. c \<noteq> CHR ''.'') f))"
proof -
  from assms have d: "CHR ''.'' \<in> set f" using dots_zero [of f] by auto
  from dots_tl_dropWhile [OF d] assms
  have "dots (tl (dropWhile (\<lambda>x. x \<noteq> CHR ''.'') f)) = 0" by simp
  then have "CHR ''.'' \<notin> set (tl (dropWhile (\<lambda>x. x \<noteq> CHR ''.'') f))"
    by (simp add: dots_zero)
  then show ?thesis
    by (simp add: split_name_ext_def py_split_first_sep [OF d] py_split_no_sep)
qed

lemma split_name_ext_other:
  assumes "dots f \<noteq> 1"
  shows "split_name_ext f = Inl ValueError"
proof -
  have "length (py_split (CHR ''.'') f) \<noteq> 2"
    using assms by (simp add: length_py_split dots_def)
  then show ?thesis
    by (auto simp: split_name_ext_def split: list.splits)
qed

text \<open>A successful split gives back the file name, and neither part contains a dot.\<close>

lemma split_name_ext_Inr:
  assumes "split_name_ext f = Inr (name, ext)"
  shows "f = name @ ''.'' @ ext \<and> CHR ''.'' \<notin> set name \<and> CHR ''.'' \<notin> set ext"
proof -
  have one: "dots f = 1"
    using assms split_name_ext_other [of f] by auto
  from assms split_name_ext_one_dot [OF one]
  have n: "name = takeWhile (\<lambda>c. c \<noteq> CHR ''.'') f"
    and x: "ext = tl (dropWhile (\<lambda>c. c \<noteq> CHR ''.'') f)" by simp_all
  from one have d: "CHR ''.'' \<in> set f" using dots_zero [of f] by auto
  then have dw: "dropWhile (\<lambda>c. c \<noteq> CHR ''.'') f \<noteq> []" by simp
  then have hd: "hd (dropWhile (\<lambda>c. c \<noteq> CHR ''.'') f) = CHR ''.''"
    using hd_dropWhile [of "\<lambda>c. c \<noteq> CHR ''.''" f] by simp
  have "f = takeWhile (\<lambda>c. c \<noteq> CHR ''.'') f @ dropWhile (\<lambda>c. c \<noteq> CHR ''.'') f" by simp
  also have "dropWhile (\<lambda>c. c \<noteq> CHR ''.'') f = CHR ''.'' # tl (dropWhile (\<lambda>c. c \<noteq> CHR ''.'') f)"
    using dw hd by (cases "dropWhile (\<lambda>c. c \<noteq> CHR ''.'') f") auto
  finally have f: "f = name @ ''.'' @ ext" using n x by simp
  have "CHR ''.'' \<notin> set name" unfolding n by (auto dest: set_takeWhileD)
  moreover have "CHR ''.'' \<notin> set ext"
    using dots_tl_dropWhile [OF d] one unfolding x by (simp add: dots_zero [symmetric])
  ultimately show ?thesis using f by simp
qed

text \<open>
  Claim C9, as amended. The base name and the extension come from splitting the file name
  at every dot and unpacking the parts into two names. A file name with exactly one dot
  yields the text before the dot as base name and the text after it as extension. A file
  name with no dot or with several dots yields no base name at all: the unpacking raises
  \<open>ValueError\<close>, which ends the processing of that file before anything is requested or
  written for it.
\<close>

theorem split_name_ext_dots:
  "(dots f = 1 \<longrightarrow>
      split_name_ext f =
        Inr (takeWhile (\<lambda>c. c \<noteq> CHR ''.'') f, tl (dropWhile (\<lambda>c. c \<noteq> CHR ''.'') f)))
   \<and> (dots f \<noteq> 1 \<longrightarrow>
        split_name_ext f = Inl ValueError \<and> process_file e a dirs f s = Inl (ValueError, s))"
  by (simp add: split_name_ext_one_dot split_name_ext_other process_file_def)

theorem split_name_ext_dots_witness:
  "split_name_ext ''0000000001.png'' = Inr (''0000000001'', ''png'')
   \<and> split_name_ext ''README'' = Inl ValueError
   \<and> process_file (example_env [''README''] [field_A]) example_args example_dirs ''README''
         init_state = Inl (ValueError, init_state)"
  using split_name_ext_dots [of "''0000000001.png''" "example_env [''README''] [field_A]"
      example_args example_dirs init_state]
    split_name_ext_dots [of "''README''" "example_env [''README''] [field_A]"
      example_args example_dirs init_state]
  by (simp add: dots_def)

text \<open>
  The claim as stated fails on a file name with two dots: no base name is produced, where
  the claim promises the text before the first dot.
\<close>

theorem split_name_ext_two_dots_counterexample:
  "dots ''archive.tar.gz'' = 2 \<and> split_name_ext ''archive.tar.gz'' = Inl ValueError"
  by (simp add: dots_def split_name_ext_def)

section \<open>The sequence index in a crop file name\<close>

lemma of_char_digit_char: "d < 10 \<Longrightarrow> of_char (digit_char d) = (48 + d :: nat)"
  by (simp add: digit_char_def)

lemma str_nat_digits: "c \<in> set (str_nat n) \<Longrightarrow> 48 \<le> (of_char c :: nat) \<and> (of_char c :: nat) \<le> 57"
proof (induction n arbitrary: c rule: str_nat.induct)
  case (1 n)
  show ?case
  proof (cases "n < 10")
    case True
    with "1.prems" have "c = digit_char n" by (simp add: str_nat.simps [of n])
    with True show ?thesis by (simp add: of_char_digit_char)
  next
    case False
    with "1.prems" have "c \<in> set (str_nat (n div 10)) \<or> c = digit_char (n mod 10)"
      by (auto simp add: str_nat.simps [of n])
    then show ?thesis
    proof
      assume "c \<in> set (str_nat (n div 10))"
      with "1.IH" False show ?thesis by simp
    next
      assume "c = digit_char (n mod 10)"
      then show ?thesis by (simp add: of_char_digit_char)
    qed
  qed
qed

lemma format_03d_digits:
  "c \<in> set (format_03d n) \<Longrightarrow> 48 \<le> (of_char c :: nat) \<and> (of_char c :: nat) \<le> 57"
  by (auto simp: format_03d_def dest: str_nat_digits)

lemma format_03d_no_special:
  "CHR 0x0A \<notin> set (format_03d n)" "CHR ''.'' \<notin> set (format_03d n)"
  "CHR ''_'' \<notin> set (format_03d n)" "CHR ''/'' \<notin> set (format_03d n)"
  using format_03d_digits [of "CHR 0x0A" n] format_03d_digits [of "CHR ''.''" n]
    format_03d_digits [of "CHR ''_''" n] format_03d_digits [of "CHR ''/''" n]
  by auto






section \<open>Label records and shapes\<close>

lemma num_lines_append:
  "num_lines (s\<lparr>labels_written := labels_written s @ [l]\<rparr>)
   = num_lines s + length (filter (\<lambda>c. c = CHR 0x0A) l)"
  by (simp add: num_lines_def)

lemma label_line_one_newline:
  assumes "CHR 0x0A \<notin> set name" "CHR 0x0A \<notin> set ext" "CHR 0x0A \<notin> set lbl"
  shows "length (filter (\<lambda>c. c = CHR 0x0A) (label_line (cropped_file_name name jj ext) lbl)) = 1"
proof -
  have z: "\<And>xs. CHR 0x0A \<notin> set xs \<Longrightarrow> filter (\<lambda>c. c = CHR 0x0A) xs = []"
    by (auto simp add: filter_empty_conv)
  show ?thesis
    using assms format_03d_no_special(1) [of jj]
    by (simp add: label_line_def cropped_file_name_def z)
qed

text \<open>What the loop over the fields leaves untouched, however it ends.\<close>

lemma fields_loop_frame_Inr:
  "fields_loop a dirs name ext jj fs shps s = Inr (shps', s') \<Longrightarrow>
   documents s' = documents s \<and> labels_open s' = labels_open s \<and> labels_file s' = labels_file s
   \<and> made_dirs s' = made_dirs s \<and> copied s' = copied s \<and> clova_files s' = clova_files s"
  by (induction fs arbitrary: jj shps s)
     (auto simp: Let_def split: sum.splits if_splits)

lemma fields_loop_frame_Inl:
  "fields_loop a dirs name ext jj fs shps s = Inl (err, s') \<Longrightarrow>
   documents s' = documents s \<and> labels_open s' = labels_open s \<and> labels_file s' = labels_file s"
  by (induction fs arbitrary: jj shps s)
     (auto simp: Let_def split: sum.splits if_splits)

lemma fields_loop_records:
  "fields_loop a dirs name ext jj fs shps s = Inr (shps', s') \<Longrightarrow>
   length (labels_written s') + length shps = length (labels_written s) + length shps'"
proof (induction fs arbitrary: jj shps s)
  case Nil
  then show ?case by simp
next
  case (Cons f fs)
  show ?case
  proof (cases "get_bbox (vertices f)")
    case (Inl err)
    with Cons.prems show ?thesis by simp
  next
    case (Inr b)
    show ?thesis
    proof (cases "valid_crop_size b (min_image_size a)")
      case False
      with Cons.prems Inr Cons.IH show ?thesis by simp
    next
      case True
      with Cons.prems Inr Cons.IH [of "Suc jj" _ _] show ?thesis
        by (fastforce simp: Let_def)
    qed
  qed
qed

lemma fields_loop_lines:
  assumes "CHR 0x0A \<notin> set name" "CHR 0x0A \<notin> set ext"
  shows "fields_loop a dirs name ext jj fs shps s = Inr (shps', s') \<Longrightarrow>
   list_all (\<lambda>fl. CHR 0x0A \<notin> set (inferText fl)) fs \<Longrightarrow>
   num_lines s' + length shps = num_lines s + length shps'"
proof (induction fs arbitrary: jj shps s)
  case Nil
  then show ?case by simp
next
  case (Cons f fs)
  from Cons.prems(2) have nl: "CHR 0x0A \<notin> set (inferText f)"
    and rest: "list_all (\<lambda>fl. CHR 0x0A \<notin> set (inferText fl)) fs" by simp_all
  show ?case
  proof (cases "get_bbox (vertices f)")
    case (Inl err)
    with Cons.prems show ?thesis by simp
  next
    case (Inr b)
    show ?thesis
    proof (cases "valid_crop_size b (min_image_size a)")
      case False
      with Cons.prems(1) Inr Cons.IH [OF _ rest] show ?thesis by simp
    next
      case True
      let ?l = "label_line (cropped_file_name name jj ext) (inferText f)"
      let ?s2 = "s\<lparr>crops := crops s @ [(os_path_join [output_path a, dirs ! 2, cropped_file_name name jj ext], b)],
                    labels_written := labels_written s @ [?l]\<rparr>"
      let ?sh = "\<lparr>label = inferText f, points = [[left b, upper b], [right b, lower b]],
                                group_id = None, shape_type = ''rectangle'', flags = []\<rparr>"
      from Cons.prems(1) Inr True
      have "fields_loop a dirs name ext (Suc jj) fs (shps @ [?sh]) ?s2 = Inr (shps', s')"
        by (simp add: Let_def)
      from Cons.IH [OF this rest]
      have "num_lines s' + length (shps @ [?sh]) = num_lines ?s2 + length shps'" .
      moreover have "num_lines ?s2 = num_lines s + 1"
        using label_line_one_newline [OF assms nl, of jj] by (simp add: num_lines_def)
      ultimately show ?thesis by simp
    qed
  qed
qed


lemma request_recognition_frame:
  "request_recognition_from_clova_ocr e a subdir f s = Inr (jf, s1) \<Longrightarrow>
   documents s1 = documents s \<and> labels_open s1 = labels_open s \<and> labels_file s1 = labels_file s
   \<and> labels_written s1 = labels_written s \<and> crops s1 = crops s \<and> clova_files s1 jf \<noteq> None"
  by (auto simp: request_recognition_from_clova_ocr_def Let_def split: sum.splits prod.splits)

lemma request_recognition_frame_Inl:
  "request_recognition_from_clova_ocr e a subdir f s = Inl (err, s1) \<Longrightarrow> s1 = s"
  by (auto simp: request_recognition_from_clova_ocr_def Let_def split: sum.splits prod.splits)

text \<open>What a fully processed file is made of.\<close>

lemma process_file_Inr:
  assumes "process_file e a dirs f s = Inr s'"
  obtains name ext res im ims jf s1 shps s2 w h where
    "split_name_ext f = Inr (name, ext)"
    "ocr e (os_path_join [input_path a, f]) ext = Inr res"
    "images res = im # ims"
    "s1 = s\<lparr>clova_files := (clova_files s)(jf \<mapsto> res)\<rparr>"
    "fields_loop a dirs name ext 0 (image_fields im) [] s1 = Inr (shps, s2)"
    "documents s' = documents s2 @
       [(os_path_join [dirs ! 3, name @ ''.json''],
         \<lparr>version = ''4.5.9'', doc_shape_type = ''rectangle'', doc_flags = [],
          shapes = shps, imagePath = f, imageData = None, imageHeight = h, imageWidth = w\<rparr>)]"
    "labels_written s' = labels_written s2" "crops s' = crops s2"
    "labels_open s' = labels_open s2" "labels_file s' = labels_file s2"
  using assms
  by (auto simp: process_file_def request_recognition_from_clova_ocr_def Let_def
           split: sum.splits prod.splits option.splits list.splits)

lemma total_shapes_append:
  "documents s' = documents s @ [(p, d)] \<Longrightarrow> total_shapes s' = total_shapes s + length (shapes d)"
  by (simp add: total_shapes_def)

lemma total_shapes_cong: "documents s' = documents s \<Longrightarrow> total_shapes s' = total_shapes s"
  by (simp add: total_shapes_def)

lemma num_lines_cong: "labels_written s' = labels_written s \<Longrightarrow> num_lines s' = num_lines s"
  by (simp add: num_lines_def)

lemma process_file_records:
  assumes "process_file e a dirs f s = Inr s'"
  shows "length (labels_written s') + total_shapes s = length (labels_written s) + total_shapes s'"
  using assms
proof (rule process_file_Inr)
  fix name ext res and im :: image_result and ims jf s1 shps s2 w h
  assume s1: "s1 = s\<lparr>clova_files := (clova_files s)(jf \<mapsto> res)\<rparr>"
    and fl: "fields_loop a dirs name ext 0 (image_fields im) [] s1 = Inr (shps, s2)"
    and docs: "documents s' = documents s2 @
       [(os_path_join [dirs ! 3, name @ ''.json''],
         \<lparr>version = ''4.5.9'', doc_shape_type = ''rectangle'', doc_flags = [],
          shapes = shps, imagePath = f, imageData = None, imageHeight = h, imageWidth = w\<rparr>)]"
    and lw: "labels_written s' = labels_written s2"
  from fields_loop_records [OF fl] s1
  have "length (labels_written s2) = length (labels_written s) + length shps" by simp
  moreover from fields_loop_frame_Inr [OF fl] s1 have "total_shapes s2 = total_shapes s"
    by (simp add: total_shapes_def)
  moreover from total_shapes_append [OF docs]
  have "total_shapes s' = total_shapes s2 + length shps" by simp
  ultimately show ?thesis using lw by simp
qed

lemma process_file_lines:
  assumes "process_file e a dirs f s = Inr s'" and nf: "file_newline_free e a f"
  shows "num_lines s' + total_shapes s = num_lines s + total_shapes s'"
  using assms(1)
proof (rule process_file_Inr)
  fix name ext res and im :: image_result and ims jf s1 shps s2 w h
  assume sp: "split_name_ext f = Inr (name, ext)"
    and oc: "ocr e (os_path_join [input_path a, f]) ext = Inr res"
    and im: "images res = im # ims"
    and s1: "s1 = s\<lparr>clova_files := (clova_files s)(jf \<mapsto> res)\<rparr>"
    and fl: "fields_loop a dirs name ext 0 (image_fields im) [] s1 = Inr (shps, s2)"
    and docs: "documents s' = documents s2 @
       [(os_path_join [dirs ! 3, name @ ''.json''],
         \<lparr>version = ''4.5.9'', doc_shape_type = ''rectangle'', doc_flags = [],
          shapes = shps, imagePath = f, imageData = None, imageHeight = h, imageWidth = w\<rparr>)]"
    and lw: "labels_written s' = labels_written s2"
  from split_name_ext_Inr [OF sp] have f: "f = name @ ''.'' @ ext" by simp
  from nf have "CHR 0x0A \<notin> set f" by (simp add: file_newline_free_def)
  with f have n: "CHR 0x0A \<notin> set name" and x: "CHR 0x0A \<notin> set ext" by auto
  from nf sp oc im have fs: "list_all (\<lambda>fl. CHR 0x0A \<notin> set (inferText fl)) (image_fields im)"
    by (simp add: file_newline_free_def)
  from fields_loop_lines [OF n x fl fs] s1
  have "num_lines s2 = num_lines s + length shps" by (simp add: num_lines_def)
  moreover from fields_loop_frame_Inr [OF fl] s1 have "total_shapes s2 = total_shapes s"
    by (simp add: total_shapes_def)
  moreover from total_shapes_append [OF docs]
  have "total_shapes s' = total_shapes s2 + length shps" by simp
  moreover from lw have "num_lines s' = num_lines s2" by (rule num_lines_cong)
  ultimately show ?thesis by simp
qed

lemma files_loop_records:
  "files_loop e a dirs files s = Inr s' \<Longrightarrow>
   length (labels_written s') + total_shapes s = length (labels_written s) + total_shapes s'"
proof (induction files arbitrary: s)
  case Nil
  then show ?case by simp
next
  case (Cons f files)
  from Cons.prems obtain s1 where p: "process_file e a dirs f s = Inr s1"
    and r: "files_loop e a dirs files s1 = Inr s'"
    by (auto split: sum.splits)
  from process_file_records [OF p] Cons.IH [OF r] show ?case by simp
qed

lemma files_loop_lines:
  "files_loop e a dirs files s = Inr s' \<Longrightarrow> list_all (file_newline_free e a) files \<Longrightarrow>
   num_lines s' + total_shapes s = num_lines s + total_shapes s'"
proof (induction files arbitrary: s)
  case Nil
  then show ?case by simp
next
  case (Cons f files)
  from Cons.prems(1) obtain s1 where p: "process_file e a dirs f s = Inr s1"
    and r: "files_loop e a dirs files s1 = Inr s'"
    by (auto split: sum.splits)
  from Cons.prems(2) have nf: "file_newline_free e a f"
    and rest: "list_all (file_newline_free e a) files" by simp_all
  from process_file_lines [OF p nf] Cons.IH [OF r rest] show ?case by simp
qed

text \<open>Creating the working directories writes no label and dumps no document.\<close>

lemma makedirs_frame:
  "makedirs e p s = Inr s' \<Longrightarrow>
   labels_written s' = labels_written s \<and> documents s' = documents s \<and> crops s' = crops s
   \<and> labels_open s' = labels_open s \<and> labels_file s' = labels_file s"
  by (auto simp: makedirs_def split: if_splits)

lemma make_sub_dirs_frame:
  "make_sub_dirs e root subs dirs s = Inr (dirs', s') \<Longrightarrow>
   labels_written s' = labels_written s \<and> documents s' = documents s \<and> crops s' = crops s
   \<and> labels_open s' = labels_open s \<and> labels_file s' = labels_file s"
proof (induction subs arbitrary: dirs s)
  case Nil
  then show ?case by simp
next
  case (Cons sub subs)
  from Cons.prems obtain s1 where m: "makedirs e (os_path_join [root, sub]) s = Inr s1"
    and r: "make_sub_dirs e root subs (dirs @ [os_path_join [root, sub]]) s1 = Inr (dirs', s')"
    by (auto simp: Let_def split: sum.splits)
  from makedirs_frame [OF m] Cons.IH [OF r] show ?case by simp
qed

lemma create_working_directory_frame:
  assumes "create_working_directory e root subs s = Inr (dirs, s')"
  shows "labels_written s' = labels_written s \<and> documents s' = documents s \<and> crops s' = crops s
   \<and> labels_open s' = labels_open s \<and> labels_file s' = labels_file s"
proof -
  from assms obtain s1 where m: "makedirs e root s = Inr s1"
    and r: "make_sub_dirs e root subs [root] s1 = Inr (dirs, s')"
    by (auto simp: create_working_directory_def split: sum.splits)
  from makedirs_frame [OF m] make_sub_dirs_frame [OF r] show ?thesis by simp
qed

text \<open>A run that completes, taken apart.\<close>

lemma run_completed:
  assumes "run e a s = (None, s')"
  obtains dirs s1 files n s3 where
    "create_working_directory e (output_path a) [''recognized'', ''cropped'', ''converted''] s
       = Inr (dirs, s1)"
    "get_files e (input_path a) [] = Inr (files, n)"
    "files_loop e a dirs files
       (s1\<lparr>labels_file := Some (os_path_join [output_path a, dirs ! 2, ''labels.txt'']),
           labels_open := True\<rparr>) = Inr s3"
    "s' = s3\<lparr>labels_open := False\<rparr>"
  using assms
  by (auto simp: run_def Let_def split: if_splits sum.splits prod.splits)

lemma run_records:
  assumes "run e a s = (None, s')"
  shows "length (labels_written s') + total_shapes s = length (labels_written s) + total_shapes s'"
  using assms
proof (rule run_completed)
  fix dirs s1 files n s3
  assume c: "create_working_directory e (output_path a) [''recognized'', ''cropped'', ''converted''] s
       = Inr (dirs, s1)"
    and l: "files_loop e a dirs files
       (s1\<lparr>labels_file := Some (os_path_join [output_path a, dirs ! 2, ''labels.txt'']),
           labels_open := True\<rparr>) = Inr s3"
    and s': "s' = s3\<lparr>labels_open := False\<rparr>"
  from files_loop_records [OF l] create_working_directory_frame [OF c] s'
  show ?thesis by (simp add: total_shapes_def)
qed

lemma run_lines:
  assumes "run e a s = (None, s')" and "newline_free e a"
  shows "num_lines s' + total_shapes s = num_lines s + total_shapes s'"
  using assms(1)
proof (rule run_completed)
  fix dirs s1 files n s3
  assume c: "create_working_directory e (output_path a) [''recognized'', ''cropped'', ''converted''] s
       = Inr (dirs, s1)"
    and g: "get_files e (input_path a) [] = Inr (files, n)"
    and l: "files_loop e a dirs files
       (s1\<lparr>labels_file := Some (os_path_join [output_path a, dirs ! 2, ''labels.txt'']),
           labels_open := True\<rparr>) = Inr s3"
    and s': "s' = s3\<lparr>labels_open := False\<rparr>"
  from assms(2) g have "list_all (file_newline_free e a) files"
    by (simp add: newline_free_def)
  from files_loop_lines [OF l this] create_working_directory_frame [OF c] s'
  show ?thesis by (simp add: total_shapes_def num_lines_def)
qed

text \<open>
  Claim C4, as amended. After each fully processed image, and at the end of every batch
  run that completes without an exception, the number of records written to the label
  file equals the number of shapes over all the documents dumped: a field has its record
  written if and only if its shape is added, by the one test of \<open>valid_crop_size\<close>. The
  number of lines of the label file equals that number too when no file name and no
  recognised text contains a line feed.
\<close>

theorem labels_match_shapes:
  "(process_file e a dirs f s = Inr s' \<and> length (labels_written s) = total_shapes s \<longrightarrow>
      length (labels_written s') = total_shapes s')
   \<and> (run e a init_state = (None, s') \<longrightarrow>
        length (labels_written s') = total_shapes s'
        \<and> (newline_free e a \<longrightarrow> num_lines s' = total_shapes s'))"
proof -
  have "length (labels_written s') = total_shapes s'"
    if "process_file e a dirs f s = Inr s'" "length (labels_written s) = total_shapes s"
    using process_file_records [OF that(1)] that(2) by simp
  moreover have "length (labels_written s') = total_shapes s'"
    if "run e a init_state = (None, s')"
    using run_records [OF that] by (simp add: init_state_def total_shapes_def)
  moreover have "num_lines s' = total_shapes s'"
    if "run e a init_state = (None, s')" "newline_free e a"
    using run_lines [OF that] by (simp add: init_state_def total_shapes_def num_lines_def)
  ultimately show ?thesis by blast
qed

theorem labels_match_shapes_witness:
  "process_file (example_env [''0000000001.png''] [field_A, field_B]) example_args example_dirs
       ''0000000001.png'' init_state
     = Inr (projr (process_file (example_env [''0000000001.png''] [field_A, field_B]) example_args
                     example_dirs ''0000000001.png'' init_state))
   \<and> length (labels_written init_state) = total_shapes init_state
   \<and> length (labels_written (projr (process_file (example_env [''0000000001.png''] [field_A, field_B])
                example_args example_dirs ''0000000001.png'' init_state))) = 1
   \<and> total_shapes (projr (process_file (example_env [''0000000001.png''] [field_A, field_B])
                example_args example_dirs ''0000000001.png'' init_state)) = 1
   \<and> run (example_env [''0000000001.png''] [field_A, field_B]) example_args init_state
     = (None, snd (run (example_env [''0000000001.png''] [field_A, field_B]) example_args init_state))
   \<and> newline_free (example_env [''0000000001.png''] [field_A, field_B]) example_args
   \<and> length (labels_written
        (snd (run (example_env [''0000000001.png''] [field_A, field_B]) example_args init_state))) = 1
   \<and> num_lines
        (snd (run (example_env [''0000000001.png''] [field_A, field_B]) example_args init_state)) = 1
   \<and> total_shapes
        (snd (run (example_env [''0000000001.png''] [field_A, field_B]) example_args init_state)) = 1"
proof -
  let ?e = "example_env [''0000000001.png''] [field_A, field_B]"
  let ?p = "process_file ?e example_args example_dirs ''0000000001.png'' init_state"
  let ?r = "run ?e example_args init_state"
  have "\<not> isl ?p" by code_simp
  then have p: "?p = Inr (projr ?p)" by simp
  have i: "length (labels_written init_state) = total_shapes init_state" by code_simp
  have "fst ?r = None" by code_simp
  then have r: "?r = (None, snd ?r)" by (simp add: prod_eq_iff)
  have n: "newline_free ?e example_args" by code_simp
  have l: "length (labels_written (projr ?p)) = 1" "length (labels_written (snd ?r)) = 1"
    by code_simp+
  from labels_match_shapes [of ?e example_args example_dirs "''0000000001.png''" init_state
      "projr ?p"] p i l(1)
  have 1: "total_shapes (projr ?p) = 1" by simp
  from labels_match_shapes [of ?e example_args example_dirs "''0000000001.png''" init_state
      "snd ?r"] r n l(2)
  have 2: "num_lines (snd ?r) = 1" "total_shapes (snd ?r) = 1" by simp_all
  from p i l 1 r n 2 show ?thesis by blast
qed

text \<open>
  The claim as stated fails in two ways. A recognised text with a line feed in it gives
  one record of two lines for one shape, in a run that completes. And a run that an
  exception ends in the middle of an image (here a field with no vertex, after an
  accepted field) has written a record for which no document was dumped.
\<close>

theorem labels_match_shapes_counterexample:
  "fst (run (example_env [''0000000001.png''] [field_two_lines]) example_args init_state) = None
   \<and> num_lines (snd (run (example_env [''0000000001.png''] [field_two_lines]) example_args
                        init_state)) = 2
   \<and> total_shapes (snd (run (example_env [''0000000001.png''] [field_two_lines]) example_args
                           init_state)) = 1
   \<and> fst (run (example_env [''0000000001.png''] [field_A, field_no_vertices]) example_args
             init_state) = Some ValueError
   \<and> length (labels_written (snd (run (example_env [''0000000001.png''] [field_A, field_no_vertices])
                        example_args init_state))) = 1
   \<and> num_lines (snd (run (example_env [''0000000001.png''] [field_A, field_no_vertices]) example_args
                        init_state)) = 1
   \<and> total_shapes (snd (run (example_env [''0000000001.png''] [field_A, field_no_vertices])
                           example_args init_state)) = 0"
  by code_simp

section \<open>Validation of the paths\<close>

lemma run_fails_on_existing_output:
  assumes "path_exists e (output_path a) \<or> path_isdir e (output_path a)"
  shows "run e a s =
           (Some (if \<not> path_exists e (input_path a) then SystemExit (input_missing_message e a)
                  else if path_isdir e (output_path a) then SystemExit (output_exists_message e a)
                  else FileExistsError (output_path a)), s)"
  using assms by (auto simp: run_def create_working_directory_def makedirs_def)

lemma run_changes_only_after_checks:
  assumes "snd (run e a s) \<noteq> s"
  shows "path_exists e (input_path a) \<and> \<not> path_isdir e (output_path a)
         \<and> \<not> path_exists e (output_path a)"
proof -
  have "path_exists e (output_path a) \<or> path_isdir e (output_path a) \<Longrightarrow> False"
    using run_fails_on_existing_output [of e a s] assms by simp
  moreover have "\<not> path_exists e (input_path a) \<Longrightarrow> False"
    using assms by (simp add: run_def)
  ultimately show ?thesis by blast
qed

text \<open>
  Claim C5, as amended. For every configuration whose output path already exists, \<open>run\<close>
  fails and leaves the outputs as they were: no directory is made and no file is written,
  so a second invocation against the same output path writes nothing new. The failure is the
  exit with the already-exists message when the input path exists and the output path is a
  directory; it is the exit with the input-not-found message when the input path is
  missing, and the \<open>FileExistsError\<close> of \<open>os.makedirs\<close> when the output path exists but is
  not a directory. A run changes the outputs only if the input path exists and the output
  path does not: the directories are made after both checks have passed.
\<close>

theorem run_output_exists:
  "(path_exists e (output_path a) \<or> path_isdir e (output_path a) \<longrightarrow>
      run e a s =
        (Some (if \<not> path_exists e (input_path a) then SystemExit (input_missing_message e a)
               else if path_isdir e (output_path a) then SystemExit (output_exists_message e a)
               else FileExistsError (output_path a)), s))
   \<and> (snd (run e a s) \<noteq> s \<longrightarrow>
        path_exists e (input_path a) \<and> \<not> path_isdir e (output_path a)
        \<and> \<not> path_exists e (output_path a))"
  using run_fails_on_existing_output [of e a s] run_changes_only_after_checks [of e a s] by blast

theorem run_output_exists_witness:
  "run env_output_dir example_args init_state
     = (Some (SystemExit (output_exists_message env_output_dir example_args)), init_state)
   \<and> run env_output_file example_args init_state = (Some (FileExistsError ''/out''), init_state)
   \<and> run env_no_input example_args init_state
     = (Some (SystemExit (input_missing_message env_no_input example_args)), init_state)
   \<and> snd (run (example_env [''0000000001.png''] [field_A, field_B]) example_args init_state)
       \<noteq> init_state
   \<and> path_exists (example_env [''0000000001.png''] [field_A, field_B]) ''/in''
   \<and> \<not> path_exists (example_env [''0000000001.png''] [field_A, field_B]) ''/out''"
proof -
  let ?e = "example_env [''0000000001.png''] [field_A, field_B]"
  have "made_dirs (snd (run ?e example_args init_state)) \<noteq> made_dirs init_state"
    by code_simp
  then have c: "snd (run ?e example_args init_state) \<noteq> init_state" by auto
  from run_output_exists [of env_output_dir example_args init_state]
    run_output_exists [of env_output_file example_args init_state]
    run_output_exists [of env_no_input example_args init_state]
    run_output_exists [of ?e example_args init_state] c
  show ?thesis
    by (simp add: env_output_dir_def env_output_file_def env_no_input_def example_env_def
        example_args_def)
qed

text \<open>
  The claim as stated fails when the input path is missing as well: the run then ends with
  the input-not-found exit, not with the already-exists one.
\<close>

theorem run_output_exists_counterexample:
  "path_exists env_no_input (output_path example_args)
   \<and> path_isdir env_no_input (output_path example_args)
   \<and> run env_no_input example_args init_state
       = (Some (SystemExit (input_missing_message env_no_input example_args)), init_state)
   \<and> input_missing_message env_no_input example_args
       \<noteq> output_exists_message env_no_input example_args"
  by (simp add: run_def env_no_input_def example_env_def example_args_def
      input_missing_message_def output_exists_message_def)

section \<open>The handle of the label file\<close>

lemma process_file_Inl_frame:
  "process_file e a dirs f s = Inl (err, s') \<Longrightarrow>
   labels_open s' = labels_open s \<and> labels_file s' = labels_file s"
  by (auto simp: process_file_def Let_def
           dest!: request_recognition_frame request_recognition_frame_Inl fields_loop_frame_Inl
           split: sum.splits prod.splits option.splits list.splits)

lemma process_file_Inr_frame:
  assumes "process_file e a dirs f s = Inr s'"
  shows "labels_open s' = labels_open s \<and> labels_file s' = labels_file s"
  using assms
proof (rule process_file_Inr)
  fix name ext res and im :: image_result and ims jf s1 shps s2 w h
  assume s1: "s1 = s\<lparr>clova_files := (clova_files s)(jf \<mapsto> res)\<rparr>"
    and fl: "fields_loop a dirs name ext 0 (image_fields im) [] s1 = Inr (shps, s2)"
    and o: "labels_open s' = labels_open s2" and f: "labels_file s' = labels_file s2"
  from fields_loop_frame_Inr [OF fl] s1 o f show ?thesis by simp
qed

lemma files_loop_Inl_frame:
  "files_loop e a dirs files s = Inl (err, s') \<Longrightarrow>
   labels_open s' = labels_open s \<and> labels_file s' = labels_file s"
proof (induction files arbitrary: s)
  case Nil
  then show ?case by simp
next
  case (Cons f files)
  show ?case
  proof (cases "process_file e a dirs f s")
    case (Inl p)
    with Cons.prems have "process_file e a dirs f s = Inl (err, s')" by simp
    then show ?thesis by (rule process_file_Inl_frame)
  next
    case (Inr s1)
    with Cons.prems have "files_loop e a dirs files s1 = Inl (err, s')" by simp
    from Cons.IH [OF this] process_file_Inr_frame [OF Inr] show ?thesis by simp
  qed
qed

lemma makedirs_Inl_frame: "makedirs e p s = Inl (err, s') \<Longrightarrow> s' = s"
  by (auto simp: makedirs_def split: if_splits)

lemma make_sub_dirs_Inl_frame:
  "make_sub_dirs e root subs dirs s = Inl (err, s') \<Longrightarrow>
   labels_file s' = labels_file s \<and> crops s' = crops s"
proof (induction subs arbitrary: dirs s)
  case Nil
  then show ?case by simp
next
  case (Cons sub subs)
  show ?case
  proof (cases "makedirs e (os_path_join [root, sub]) s")
    case (Inl p)
    with Cons.prems have "makedirs e (os_path_join [root, sub]) s = Inl (err, s')"
      by (simp add: Let_def)
    then show ?thesis by (auto dest: makedirs_Inl_frame)
  next
    case (Inr s1)
    with Cons.prems
    have "make_sub_dirs e root subs (dirs @ [os_path_join [root, sub]]) s1 = Inl (err, s')"
      by (simp add: Let_def)
    from Cons.IH [OF this] makedirs_frame [OF Inr] show ?thesis by simp
  qed
qed

lemma create_working_directory_Inl_frame:
  assumes "create_working_directory e root subs s = Inl (err, s')"
  shows "labels_file s' = labels_file s \<and> crops s' = crops s"
proof (cases "makedirs e root s")
  case (Inl p)
  with assms have "makedirs e root s = Inl (err, s')"
    by (simp add: create_working_directory_def)
  then show ?thesis by (auto dest: makedirs_Inl_frame)
next
  case (Inr s1)
  with assms have "make_sub_dirs e root subs [root] s1 = Inl (err, s')"
    by (simp add: create_working_directory_def)
  from make_sub_dirs_Inl_frame [OF this] makedirs_frame [OF Inr] show ?thesis by simp
qed

text \<open>
  Whenever \<open>run\<close> ends with an exception after the label file has been opened, the handle
  is left open: \<open>labels.close()\<close> is reached only when the loop over the files completes.
\<close>

lemma run_raise_leaves_open:
  assumes r: "run e a init_state = (Some err, s')" and f: "labels_file s' \<noteq> None"
  shows "labels_open s'"
proof -
  have n: "labels_file init_state = None" by (simp add: init_state_def)
  from r f n have v: "path_exists e (input_path a)" "\<not> path_isdir e (output_path a)"
    by (auto simp: run_def split: if_splits)
  show ?thesis
  proof (cases "create_working_directory e (output_path a)
                  [''recognized'', ''cropped'', ''converted''] init_state")
    case (Inl p)
    with r v have "create_working_directory e (output_path a)
                  [''recognized'', ''cropped'', ''converted''] init_state = Inl (err, s')"
      by (cases p) (simp add: run_def)
    from create_working_directory_Inl_frame [OF this] f n show ?thesis by simp
  next
    case (Inr p)
    obtain dirs s1 where p: "p = (dirs, s1)" by (cases p)
    from create_working_directory_frame [OF Inr [unfolded p]] n
    have n1: "labels_file s1 = None" by simp
    show ?thesis
    proof (cases "get_files e (input_path a) []")
      case (Inl err')
      with r v Inr p have "s' = s1" by (simp add: run_def)
      with f n1 show ?thesis by simp
    next
      case g: (Inr q)
      obtain files k where q: "q = (files, k)" by (cases q)
      let ?s2 = "s1\<lparr>labels_file := Some (os_path_join [output_path a, dirs ! 2, ''labels.txt'']),
                   labels_open := True\<rparr>"
      from r v Inr p g q have "files_loop e a dirs files ?s2 = Inl (err, s')"
        by (auto simp: run_def Let_def split: sum.splits)
      from files_loop_Inl_frame [OF this] show ?thesis by simp
    qed
  qed
qed

text \<open>
  Claim C7. The claim asks that the handle of the label file be closed on every exit path
  of \<open>run\<close>. The code does not do so. With the input files \<open>0000000001.png\<close> and \<open>notes\<close>, the
  first file is processed and its document dumped; the second, whose name has no dot, raises
  \<open>ValueError\<close>, and \<open>run\<close> ends with the label file created and its handle still open.
\<close>

theorem run_error_leaves_labels_open:
  "fst (run (example_env [''0000000001.png'', ''notes''] [field_A, field_B]) example_args
          init_state) = Some ValueError
   \<and> length (documents (snd (run (example_env [''0000000001.png'', ''notes''] [field_A, field_B])
                                example_args init_state))) = 1
   \<and> labels_file (snd (run (example_env [''0000000001.png'', ''notes''] [field_A, field_B])
                          example_args init_state)) = Some ''/out/cropped/labels.txt''
   \<and> labels_open (snd (run (example_env [''0000000001.png'', ''notes''] [field_A, field_B])
                          example_args init_state))"
  by code_simp

section \<open>Crop file names\<close>


























end
